theory Spec2Isabelle
  imports Main "HOL-Library.Word"
begin

unbundle bit_operations_syntax

section \<open>Python values used by the solver\<close>

text \<open>
  Python text (\<open>str\<close>) and the contents of \<open>c_char\<close> buffers are both modelled as
  \<open>string\<close>: a \<open>c_char\<close> buffer is a list of bytes, a \<open>str\<close> is held as its UTF-8
  bytes, so that 7-bit text is the same list on both sides. Card tokens are 7-bit text.
  Python's integers are \<open>int\<close>.

  An exception that is an instance of \<open>Exception\<close> is a value carrying what \<open>str(e)\<close>
  gives for it; fallible operations return \<open>py_exception + 'a\<close>, \<open>Inl\<close> for a raise.
\<close>

datatype py_exception = Exception string

fun str_exc :: "py_exception \<Rightarrow> string" where
  "str_exc (Exception msg) = msg"

text \<open>\<open>xs[i]\<close> on a Python list: a negative index counts from the end, an index out of
  range raises IndexError.\<close>

definition py_getitem :: "'a list \<Rightarrow> int \<Rightarrow> py_exception + 'a" where
  "py_getitem xs i =
     (if 0 \<le> i \<and> i < int (length xs) then Inr (xs ! nat i)
      else if - int (length xs) \<le> i \<and> i < 0 then Inr (xs ! nat (int (length xs) + i))
      else Inl (Exception ''list index out of range''))"

text \<open>\<open>str(n)\<close> for an integer, as the f-strings of \<open>solve\<close> format it.\<close>

definition digit_char :: "nat \<Rightarrow> char" where
  "digit_char d = char_of (48 + d)"

fun str_nat :: "nat \<Rightarrow> string" where
  "str_nat n = (if n < 10 then [digit_char n] else str_nat (n div 10) @ [digit_char (n mod 10)])"

declare str_nat.simps [simp del]

definition str_int :: "int \<Rightarrow> string" where
  "str_int i = (if i < 0 then CHR ''-'' # str_nat (nat (- i)) else str_nat (nat i))"

text \<open>\<open>c.upper()\<close> for one character of 7-bit text: the letters a to z go to A to Z and
  every other character stays. The result is only ever looked up in \<open>RankMap\<close> and
  \<open>SuitMap\<close>, whose keys are 7-bit. Beyond 7-bit text Python sends one more character
  to a key, U+017F to S; a token holding it is outside this model.\<close>

definition upper :: "char \<Rightarrow> string" where
  "upper c = (if (97 :: nat) \<le> of_char c \<and> of_char c \<le> (122 :: nat)
              then [char_of (of_char c - (32 :: nat))] else [c])"

text \<open>\<open>s.split(sep)\<close> with a one-character separator: the pieces between the
  occurrences of \<open>sep\<close>, always at least one piece.\<close>

fun split :: "char \<Rightarrow> string \<Rightarrow> string list" where
  "split sep [] = [[]]"
| "split sep (c # cs) =
     (if c = sep then [] # split sep cs
      else (case split sep cs of
              [] \<Rightarrow> [[c]]
            | w # ws \<Rightarrow> (c # w) # ws))"

section \<open>Solver.py: the C structures\<close>

type_synonym c_uint = "32 word"

text \<open>\<open>cards[4][4]\<close>, indexed by player and suit.\<close>

record ddTableDeal =
  cards :: "c_uint list list"

text \<open>\<open>resTable[5][4]\<close>, indexed by strain and player. The solver only reads it, at
  constant indices inside the array.\<close>

record ddTableResults =
  resTable :: "nat \<Rightarrow> nat \<Rightarrow> int"

text \<open>Two score buffers of 16 bytes and two contract buffers of 128 bytes, one per side.\<close>

record parResults =
  parScore :: "string \<times> string"
  parContractsString :: "string \<times> string"

text \<open>\<open>buf.value\<close> of a \<open>c_char\<close> array: the bytes before the first NUL.\<close>

definition c_value :: "string \<Rightarrow> string" where
  "c_value buf = takeWhile (\<lambda>b. b \<noteq> CHR 0x00) buf"

section \<open>Solver.py: BridgeSolver\<close>

definition SuitMap :: "string \<rightharpoonup> nat" where
  "SuitMap = map_of [(''S'', 0), (''H'', 1), (''D'', 2), (''C'', 3)]"

definition HandMap :: "string \<rightharpoonup> nat" where
  "HandMap = map_of [(''N'', 0), (''E'', 1), (''S'', 2), (''W'', 3)]"

definition RankMap :: "string \<rightharpoonup> c_uint" where
  "RankMap = map_of
     [(''2'', push_bit 2 1), (''3'', push_bit 3 1), (''4'', push_bit 4 1), (''5'', push_bit 5 1),
      (''6'', push_bit 6 1), (''7'', push_bit 7 1), (''8'', push_bit 8 1), (''9'', push_bit 9 1),
      (''T'', push_bit 10 1), (''J'', push_bit 11 1), (''Q'', push_bit 12 1),
      (''K'', push_bit 13 1), (''A'', push_bit 14 1)]"

subsection \<open>get_vulnerability\<close>

definition vul_pattern :: "int list" where
  "vul_pattern = [0, 1, 2, 3, 1, 2, 3, 0, 2, 3, 0, 1, 3, 0, 1, 2]"

definition get_vulnerability :: "int \<Rightarrow> py_exception + int" where
  "get_vulnerability round = py_getitem vul_pattern ((round - 1) mod 16)"

text \<open>The labels \<open>solve\<close> indexes with the vulnerability code.\<close>

definition vuln_labels :: "string list" where
  "vuln_labels = [''None'', ''NS'', ''EW'', ''Both'']"

text \<open>The table of section 4.3 of the specification, as labels.\<close>

definition spec_vulnerability_table :: "string list" where
  "spec_vulnerability_table =
     [''None'', ''NS'', ''EW'', ''Both'', ''NS'', ''EW'', ''Both'', ''None'',
      ''EW'', ''Both'', ''None'', ''NS'', ''Both'', ''None'', ''NS'', ''EW'']"

subsection \<open>_format_contract\<close>

text \<open>
  \<open>bytes.decode('utf-8')\<close> belongs to the Python runtime, not to this program: it is a
  parameter of the model, \<open>Inr\<close> the decoded text, \<open>Inl\<close> the UnicodeDecodeError.
\<close>

type_synonym decoder = "string \<Rightarrow> py_exception + string"

definition format_contract :: "decoder \<Rightarrow> string \<Rightarrow> py_exception + string" where
  "format_contract decode raw_bytes_array =
     (case decode (c_value raw_bytes_array) of
        Inl e \<Rightarrow> Inl e
      | Inr s \<Rightarrow>
          if CHR '':'' \<in> set s then py_getitem (split CHR '':'' s) 1
          else Inr s)"

subsection \<open>solve: the encoding loop\<close>

text \<open>A dict of hands is the list of its items in iteration order.\<close>

type_synonym hands = "(string \<times> string list) list"

definition new_deal :: ddTableDeal where
  "new_deal = \<lparr>cards = replicate 4 (replicate 4 0)\<rparr>"

text \<open>\<open>deal.cards[p_idx][suit_idx] |= bit\<close>\<close>

definition or_card :: "ddTableDeal \<Rightarrow> nat \<Rightarrow> nat \<Rightarrow> c_uint \<Rightarrow> ddTableDeal" where
  "or_card deal p_idx suit_idx b =
     deal\<lparr>cards := (cards deal)
       [p_idx := (cards deal ! p_idx)[suit_idx := (cards deal ! p_idx ! suit_idx) OR b]]\<rparr>"

text \<open>The body of the inner loop, on the pair of the deal and \<open>total_cards\<close>.\<close>

definition encode_card :: "nat \<Rightarrow> string \<Rightarrow> ddTableDeal \<times> int \<Rightarrow> ddTableDeal \<times> int" where
  "encode_card p_idx card' st =
     (if length card' < 2 then st
      else
        let rank_char = upper (card' ! 0);
            suit_char = upper (card' ! 1)
        in (case (RankMap rank_char, SuitMap suit_char) of
              (Some b, Some suit_idx) \<Rightarrow> (or_card (fst st) p_idx suit_idx b, snd st + 1)
            | _ \<Rightarrow> st))"

fun encode_cards :: "nat \<Rightarrow> string list \<Rightarrow> ddTableDeal \<times> int \<Rightarrow> ddTableDeal \<times> int" where
  "encode_cards p_idx [] st = st"
| "encode_cards p_idx (card' # cs) st = encode_cards p_idx cs (encode_card p_idx card' st)"

fun encode_hands :: "hands \<Rightarrow> ddTableDeal \<times> int \<Rightarrow> ddTableDeal \<times> int" where
  "encode_hands [] st = st"
| "encode_hands ((player, cs) # rest) st =
     (case HandMap player of
        None \<Rightarrow> encode_hands rest st
      | Some p_idx \<Rightarrow> encode_hands rest (encode_cards p_idx cs st))"

subsection \<open>solve: the engine\<close>

text \<open>
  The two entry points of libdds are parameters of the model. A call through ctypes gives
  the return code and what the engine wrote through its pointer arguments, or raises.
  \<open>Par\<close> receives the table by reference, so it gives the table back as well.
\<close>

record dds_lib =
  CalcDDtable :: "ddTableDeal \<Rightarrow> py_exception + int \<times> ddTableResults"
  Par :: "ddTableResults \<Rightarrow> int \<Rightarrow> py_exception + int \<times> ddTableResults \<times> parResults"

text \<open>The calls made to the engine during one run, in order.\<close>

datatype engine_call = Call_CalcDDtable ddTableDeal | Call_Par ddTableResults int

subsection \<open>solve\<close>

record par_summary =
  vulnerability :: string
  optimal_contract :: string
  score :: string

record result_data =
  status :: string
  message :: string
  dd_table :: "(string \<times> (string \<times> int) list) list"
  par_result :: par_summary

definition default_result :: result_data where
  "default_result =
     \<lparr>status = ''error'', message = [], dd_table = [],
      par_result = \<lparr>vulnerability = ''Unknown'', optimal_contract = ''-'', score = ''0''\<rparr>\<rparr>"

definition suits_str :: "string list" where
  "suits_str = [''Pik'', ''Kier'', ''Karo'', ''Trefl'', ''NT'']"

definition display_order :: "nat list" where
  "display_order = [4, 0, 1, 2, 3]"

text \<open>Step 5 of \<open>solve\<close>; every index of \<open>display_order\<close> is inside \<open>suits_str\<close>.\<close>

definition structured_dd :: "ddTableResults \<Rightarrow> (string \<times> (string \<times> int) list) list" where
  "structured_dd table =
     map (\<lambda>s_idx. (suits_str ! s_idx,
                    [(''N'', resTable table s_idx 0), (''E'', resTable table s_idx 1),
                     (''S'', resTable table s_idx 2), (''W'', resTable table s_idx 3)]))
       display_order"

text \<open>The inner \<open>try\<close> of step 4: the contract and the score on \<open>res_par == 1\<close>.\<close>

definition decode_par :: "decoder \<Rightarrow> parResults \<Rightarrow> string \<times> string" where
  "decode_par decode pres =
     (case format_contract decode (fst (parContractsString pres)) of
        Inl decode_err \<Rightarrow> (''Decode Error: '' @ str_exc decode_err, ''0'')
      | Inr contract \<Rightarrow>
          (case decode (c_value (fst (parScore pres))) of
             Inl decode_err \<Rightarrow> (''Decode Error: '' @ str_exc decode_err, ''0'')
           | Inr score' \<Rightarrow> (contract, score')))"

text \<open>Steps 4 and 5, reached after a successful \<open>CalcDDtable\<close>.\<close>

definition par_stage ::
  "dds_lib \<Rightarrow> decoder \<Rightarrow> ddTableResults \<Rightarrow> int \<Rightarrow> result_data \<Rightarrow> engine_call list \<Rightarrow>
   (py_exception + result_data) \<times> engine_call list" where
  "par_stage lib decode table round_num result_data calls =
     (case get_vulnerability round_num of
        Inl e \<Rightarrow> (Inl e, calls)
      | Inr vul_val \<Rightarrow>
     (case py_getitem vuln_labels vul_val of
        Inl e \<Rightarrow> (Inl e, calls)
      | Inr vuln_str \<Rightarrow>
     (case Par lib table vul_val of
        Inl e \<Rightarrow> (Inl e, calls @ [Call_Par table vul_val])
      | Inr (res_par, table', pres) \<Rightarrow>
          let (contract, score') =
                (if res_par = 1 then decode_par decode pres else (''-'', ''0''));
              result_data =
                (if res_par = 1 then result_data
                 else result_data\<lparr>message := ''DDS Par Error: '' @ str_int res_par\<rparr>)
          in (Inr (result_data
                    \<lparr>status := ''ok'',
                     dd_table := structured_dd table',
                     par_result := \<lparr>vulnerability = vuln_str, optimal_contract = contract,
                                     score = score'\<rparr>\<rparr>),
              calls @ [Call_Par table vul_val]))))"

text \<open>The body of the outer \<open>try\<close>: \<open>Inr\<close> for a \<open>return\<close> or the fall through to the
  final \<open>return\<close>, \<open>Inl\<close> for an exception on its way to the handler.\<close>

definition solve_try ::
  "dds_lib \<Rightarrow> decoder \<Rightarrow> hands \<Rightarrow> int \<Rightarrow> result_data \<Rightarrow>
   (py_exception + result_data) \<times> engine_call list" where
  "solve_try lib decode hands_dict round_num result_data =
     (let (deal, total_cards) = encode_hands hands_dict (new_deal, 0)
      in if total_cards \<noteq> 52
         then (Inr (result_data\<lparr>message := ''Invalid card count: '' @ str_int total_cards\<rparr>), [])
         else
           (case CalcDDtable lib deal of
              Inl e \<Rightarrow> (Inl e, [Call_CalcDDtable deal])
            | Inr (res_dd, table) \<Rightarrow>
                if res_dd \<noteq> 1
                then (Inr (result_data\<lparr>message := ''DDS CalcDDtable Error: '' @ str_int res_dd\<rparr>),
                      [Call_CalcDDtable deal])
                else par_stage lib decode table round_num result_data [Call_CalcDDtable deal]))"

text \<open>
  \<open>solve\<close>: the envelope it returns and the engine calls it made. No statement of the
  \<open>try\<close> body changes \<open>result_data\<close> before a point that can raise, so the handler
  writes its message into the default envelope.
\<close>

definition solve :: "dds_lib \<Rightarrow> decoder \<Rightarrow> hands \<Rightarrow> int \<Rightarrow> result_data \<times> engine_call list" where
  "solve lib decode hands_dict round_num =
     (let result_data = default_result
      in case solve_try lib decode hands_dict round_num result_data of
           (Inr r, calls) \<Rightarrow> (r, calls)
         | (Inl e, calls) \<Rightarrow>
             (result_data\<lparr>message := ''Python Exception: '' @ str_exc e\<rparr>, calls))"

section \<open>main.py: solve_api\<close>

record history_entry =
  entry_id :: string
  entry_time :: string
  entry_round :: int
  entry_contract :: string
  entry_score :: string
  entry_bid_contract :: string

text \<open>The module globals \<open>solve_api\<close> reads and writes.\<close>

record app_state =
  GLOBAL_CONFIG_round :: int
  HISTORY_LOG :: "history_entry list"
  CURRENT_HANDS :: hands

text \<open>
  \<open>solve_api\<close>: \<open>bid\<close> is the request's \<open>bid_contract\<close> when it has one, \<open>new_id\<close> and
  \<open>now\<close> are what \<open>uuid4\<close> and the clock give. It returns the envelope and the new globals.
\<close>

definition solve_api ::
  "dds_lib \<Rightarrow> decoder \<Rightarrow> string option \<Rightarrow> string \<Rightarrow> string \<Rightarrow> app_state \<Rightarrow>
   result_data \<times> app_state" where
  "solve_api lib decode bid new_id now st =
     (let current_round = GLOBAL_CONFIG_round st;
          bid_contract = (case bid of None \<Rightarrow> ''none'' | Some b \<Rightarrow> b);
          result = fst (solve lib decode (CURRENT_HANDS st) current_round)
      in if status result = ''ok''
         then (result,
               st\<lparr>HISTORY_LOG := HISTORY_LOG st @
                    [\<lparr>entry_id = new_id, entry_time = now, entry_round = current_round,
                      entry_contract = optimal_contract (par_result result),
                      entry_score = score (par_result result),
                      entry_bid_contract = bid_contract\<rparr>]\<rparr>)
         else (result, st))"

section \<open>The encoding loop, seen from the specification\<close>

text \<open>Where an accepted token goes: its suit index and rank bit.\<close>

definition card_target :: "string \<Rightarrow> (nat \<times> c_uint) option" where
  "card_target card' =
     (if length card' < 2 then None
      else (case (RankMap (upper (card' ! 0)), SuitMap (upper (card' ! 1))) of
              (Some b, Some suit_idx) \<Rightarrow> Some (suit_idx, b)
            | _ \<Rightarrow> None))"

text \<open>The accepted cards of one seat and of a whole mapping, as (player index, suit index,
  rank bit), in the order the loop meets them; \<open>place\<close> is what the loop does with one.\<close>

definition seat_cards :: "nat \<Rightarrow> string list \<Rightarrow> (nat \<times> nat \<times> c_uint) list" where
  "seat_cards p_idx cs =
     concat (map (\<lambda>c. case card_target c of
                        None \<Rightarrow> []
                      | Some (suit_idx, b) \<Rightarrow> [(p_idx, suit_idx, b)]) cs)"

definition accepted_cards :: "hands \<Rightarrow> (nat \<times> nat \<times> c_uint) list" where
  "accepted_cards hands_dict =
     concat (map (\<lambda>(player, cs).
                    case HandMap player of None \<Rightarrow> [] | Some p_idx \<Rightarrow> seat_cards p_idx cs)
               hands_dict)"

definition place :: "nat \<times> nat \<times> c_uint \<Rightarrow> ddTableDeal \<Rightarrow> ddTableDeal" where
  "place t deal = or_card deal (fst t) (fst (snd t)) (snd (snd t))"

text \<open>The (seat, token) pairs of a mapping.\<close>

definition seat_tokens :: "hands \<Rightarrow> (string \<times> string) list" where
  "seat_tokens hands_dict = concat (map (\<lambda>(player, cs). map (Pair player) cs) hands_dict)"

text \<open>The number of bits set in a mask, and in the whole table.\<close>

definition popcount :: "c_uint \<Rightarrow> nat" where
  "popcount w = length (filter (bit w) [0..<32])"

definition deal_popcount :: "ddTableDeal \<Rightarrow> nat" where
  "deal_popcount deal = sum_list (map popcount (concat (cards deal)))"

text \<open>A table of four rows of four masks, and one of its cells.\<close>

definition wf_deal :: "ddTableDeal \<Rightarrow> bool" where
  "wf_deal deal \<longleftrightarrow> map length (cards deal) = [4, 4, 4, 4]"

definition cell :: "ddTableDeal \<Rightarrow> nat \<Rightarrow> nat \<Rightarrow> c_uint" where
  "cell deal p s = cards deal ! p ! s"

section \<open>Sample inputs\<close>

text \<open>The \<open>CURRENT_HANDS\<close> literal of main.py.\<close>

definition main_hands :: hands where
  "main_hands =
     [(''N'', [''AS'', ''KS'', ''QS'', ''JS'', ''TS'', ''9S'', ''8S'', ''7S'', ''6S'', ''5S'',
               ''4S'', ''3S'', ''2S'']),
      (''E'', [''AH'', ''KH'', ''QH'', ''JH'', ''TH'', ''9H'', ''8H'', ''7H'', ''6H'', ''5H'',
               ''4H'', ''3H'', ''2H'']),
      (''S'', [''AD'', ''KD'', ''QD'', ''JD'', ''TD'', ''9D'', ''8D'', ''7D'', ''6D'', ''5D'',
               ''4D'', ''3D'', ''2D'']),
      (''W'', [''AC'', ''KC'', ''QC'', ''JC'', ''TC'', ''9C'', ''8C'', ''7C'', ''6C'', ''5C'',
               ''4C'', ''3C'', ''2C''])]"

text \<open>The deal the encoding loop builds from \<open>main_hands\<close>.\<close>

definition main_deal :: ddTableDeal where
  "main_deal =
     \<lparr>cards = [[0x7FFC, 0, 0, 0], [0, 0x7FFC, 0, 0], [0, 0, 0x7FFC, 0], [0, 0, 0, 0x7FFC]]\<rparr>"

text \<open>The same hands with West's last card missing: 51 accepted tokens.\<close>

definition hands_51 :: hands where
  "hands_51 =
     [(''N'', [''AS'', ''KS'', ''QS'', ''JS'', ''TS'', ''9S'', ''8S'', ''7S'', ''6S'', ''5S'',
               ''4S'', ''3S'', ''2S'']),
      (''E'', [''AH'', ''KH'', ''QH'', ''JH'', ''TH'', ''9H'', ''8H'', ''7H'', ''6H'', ''5H'',
               ''4H'', ''3H'', ''2H'']),
      (''S'', [''AD'', ''KD'', ''QD'', ''JD'', ''TD'', ''9D'', ''8D'', ''7D'', ''6D'', ''5D'',
               ''4D'', ''3D'', ''2D'']),
      (''W'', [''AC'', ''KC'', ''QC'', ''JC'', ''TC'', ''9C'', ''8C'', ''7C'', ''6C'', ''5C'',
               ''4C'', ''3C''])]"

text \<open>A trick table of zeros, and a buffer: text followed by NULs up to its capacity.\<close>

definition zero_table :: ddTableResults where
  "zero_table = \<lparr>resTable = (\<lambda>strain player. 0)\<rparr>"

definition c_buffer :: "nat \<Rightarrow> string \<Rightarrow> string" where
  "c_buffer capacity s = s @ replicate (capacity - length s) (CHR 0x00)"

definition par_buffers :: "string \<Rightarrow> string \<Rightarrow> parResults" where
  "par_buffers contract0 score0 =
     \<lparr>parScore = (c_buffer 16 score0, c_buffer 16 []),
      parContractsString = (c_buffer 128 contract0, c_buffer 128 [])\<rparr>"

text \<open>An engine that answers with fixed return codes and fixed par buffers, and one whose
  first entry point raises.\<close>

definition fixed_engine :: "int \<Rightarrow> int \<Rightarrow> parResults \<Rightarrow> dds_lib" where
  "fixed_engine res_dd res_par pres =
     \<lparr>CalcDDtable = (\<lambda>deal. Inr (res_dd, zero_table)),
      Par = (\<lambda>table vul. Inr (res_par, table, pres))\<rparr>"

definition raising_engine :: dds_lib where
  "raising_engine =
     \<lparr>CalcDDtable = (\<lambda>deal. Inl (Exception ''access violation'')),
      Par = (\<lambda>table vul. Inl (Exception ''access violation''))\<rparr>"

text \<open>A decoder for 7-bit text, where UTF-8 and the bytes coincide; it refuses any other
  byte.\<close>

definition decode_7bit :: decoder where
  "decode_7bit bs =
     (if list_all (\<lambda>b. of_char b < (128 :: nat)) bs then Inr bs
      else Inl (Exception ''invalid start byte''))"

text \<open>Hands where North holds the ace of spades twice and no two of spades, and the deal
  the loop builds from them.\<close>

definition hands_dup :: hands where
  "hands_dup =
     [(''N'', [''AS'', ''AS'', ''KS'', ''QS'', ''JS'', ''TS'', ''9S'', ''8S'', ''7S'', ''6S'',
               ''5S'', ''4S'', ''3S'']),
      (''E'', [''AH'', ''KH'', ''QH'', ''JH'', ''TH'', ''9H'', ''8H'', ''7H'', ''6H'', ''5H'',
               ''4H'', ''3H'', ''2H'']),
      (''S'', [''AD'', ''KD'', ''QD'', ''JD'', ''TD'', ''9D'', ''8D'', ''7D'', ''6D'', ''5D'',
               ''4D'', ''3D'', ''2D'']),
      (''W'', [''AC'', ''KC'', ''QC'', ''JC'', ''TC'', ''9C'', ''8C'', ''7C'', ''6C'', ''5C'',
               ''4C'', ''3C'', ''2C''])]"

definition dup_deal :: ddTableDeal where
  "dup_deal =
     \<lparr>cards = [[0x7FF8, 0, 0, 0], [0, 0x7FFC, 0, 0], [0, 0, 0x7FFC, 0], [0, 0, 0, 0x7FFC]]\<rparr>"

text \<open>Two small mappings with the same (seat, token) pairs, in another order and with a
  repetition.\<close>

definition hands_a :: hands where
  "hands_a = [(''N'', [''AS'', ''KS'']), (''E'', [''2H''])]"

definition hands_b :: hands where
  "hands_b = [(''E'', [''2H'', ''2H'']), (''N'', [''KS'', ''AS''])]"

section \<open>Properties\<close>

subsection \<open>get_vulnerability\<close>

lemma get_vulnerability_value:
  "get_vulnerability round = Inr (vul_pattern ! nat ((round - 1) mod 16))"
proof -
  have len: "int (length vul_pattern) = 16"
    by (simp add: vul_pattern_def)
  have "0 \<le> (round - 1) mod 16" "(round - 1) mod 16 < 16"
    by simp_all
  then show ?thesis
    unfolding get_vulnerability_def py_getitem_def len by simp
qed

lemma label_of_pattern:
  assumes "k < 16"
  shows "0 \<le> vul_pattern ! k \<and> vul_pattern ! k < 4 \<and>
         py_getitem vuln_labels (vul_pattern ! k) = Inr (spec_vulnerability_table ! k)"
proof -
  have len: "length vul_pattern = 16" "length spec_vulnerability_table = 16"
    by (simp_all add: vul_pattern_def spec_vulnerability_table_def)
  have "map (py_getitem vuln_labels) vul_pattern = map Inr spec_vulnerability_table"
    by (simp add: py_getitem_def vul_pattern_def vuln_labels_def spec_vulnerability_table_def)
  then have "map (py_getitem vuln_labels) vul_pattern ! k = map Inr spec_vulnerability_table ! k"
    by (rule arg_cong)
  with assms len have "py_getitem vuln_labels (vul_pattern ! k) = Inr (spec_vulnerability_table ! k)"
    by simp
  moreover have "list_all (\<lambda>v. 0 \<le> v \<and> v < 4) vul_pattern"
    by (simp add: vul_pattern_def)
  with assms len have "0 \<le> vul_pattern ! k \<and> vul_pattern ! k < 4"
    by (simp add: list_all_length)
  ultimately show ?thesis by simp
qed

lemma vulnerability_lookup:
  "\<exists>vul_val. get_vulnerability round = Inr vul_val \<and> 0 \<le> vul_val \<and> vul_val < 4 \<and>
     py_getitem vuln_labels vul_val =
       Inr (spec_vulnerability_table ! nat ((round - 1) mod 16))"
proof -
  have "nat ((round - 1) mod 16) < 16"
    by simp
  from label_of_pattern [OF this] show ?thesis
    unfolding get_vulnerability_value by blast
qed

lemma get_vulnerability_period:
  "get_vulnerability (round + 16) = get_vulnerability round"
proof -
  have "round + 16 - 1 = round - 1 + 16"
    by simp
  then have "(round + 16 - 1) mod 16 = (round - 1) mod 16"
    by (simp only: mod_add_self2)
  then show ?thesis
    by (simp only: get_vulnerability_def)
qed

text \<open>
  C7. For every round from 1 on, the code \<open>get_vulnerability\<close> returns is in 0..3 and
  names, through the labels None, NS, EW, Both, the entry of the table of the
  specification at index \<open>(round - 1) mod 16\<close>; the function has period 16; rounds 17 and
  1 both give None (code 0) and round 4 gives Both (code 3).
\<close>

theorem get_vulnerability_table:
  assumes "1 \<le> round"
  shows "(\<exists>vul_val. get_vulnerability round = Inr vul_val \<and> 0 \<le> vul_val \<and> vul_val < 4 \<and>
            py_getitem vuln_labels vul_val =
              Inr (spec_vulnerability_table ! nat ((round - 1) mod 16)))
         \<and> get_vulnerability (round + 16) = get_vulnerability round
         \<and> get_vulnerability 17 = Inr 0 \<and> get_vulnerability 1 = Inr 0
         \<and> py_getitem vuln_labels 0 = Inr ''None''
         \<and> get_vulnerability 4 = Inr 3
         \<and> py_getitem vuln_labels 3 = Inr ''Both''"
proof (intro conjI)
  show "\<exists>vul_val. get_vulnerability round = Inr vul_val \<and> 0 \<le> vul_val \<and> vul_val < 4 \<and>
          py_getitem vuln_labels vul_val =
            Inr (spec_vulnerability_table ! nat ((round - 1) mod 16))"
    by (rule vulnerability_lookup)
  show "get_vulnerability (round + 16) = get_vulnerability round"
    by (rule get_vulnerability_period)
  show "get_vulnerability 17 = Inr 0" "get_vulnerability 1 = Inr 0" "get_vulnerability 4 = Inr 3"
    by (simp_all add: get_vulnerability_value vul_pattern_def)
  show "py_getitem vuln_labels 0 = Inr ''None''" "py_getitem vuln_labels 3 = Inr ''Both''"
    by (simp_all add: py_getitem_def vuln_labels_def)
qed

theorem get_vulnerability_table_witness:
  "(1 :: int) \<le> 6 \<and> get_vulnerability 6 = Inr 2 \<and> py_getitem vuln_labels 2 = Inr ''EW''
   \<and> spec_vulnerability_table ! nat ((6 - 1) mod 16) = ''EW''
   \<and> get_vulnerability (6 + 16) = get_vulnerability 6"
proof -
  have h: "(1 :: int) \<le> 6" by simp
  have v: "get_vulnerability 6 = Inr 2"
    by (simp add: get_vulnerability_value vul_pattern_def)
  have l: "py_getitem vuln_labels 2 = Inr ''EW''"
    by (simp add: py_getitem_def vuln_labels_def)
  have t: "spec_vulnerability_table ! nat ((6 - 1) mod 16) = ''EW''"
    by (simp add: spec_vulnerability_table_def)
  have p: "get_vulnerability (6 + 16) = get_vulnerability 6"
    by (rule get_vulnerability_table [OF h, THEN conjunct2, THEN conjunct1])
  from h v l t p show ?thesis by blast
qed

subsection \<open>The paths through solve\<close>

lemma solve_invalid_count:
  assumes "snd (encode_hands hands_dict (new_deal, 0)) \<noteq> 52"
  shows "solve lib decode hands_dict round_num =
           (default_result\<lparr>message := ''Invalid card count: '' @
               str_int (snd (encode_hands hands_dict (new_deal, 0)))\<rparr>, [])"
  using assms by (simp add: solve_def solve_try_def case_prod_beta)

lemma solve_calc_raises:
  assumes "encode_hands hands_dict (new_deal, 0) = (deal, 52)"
    and "CalcDDtable lib deal = Inl e"
  shows "solve lib decode hands_dict round_num =
           (default_result\<lparr>message := ''Python Exception: '' @ str_exc e\<rparr>,
            [Call_CalcDDtable deal])"
  using assms by (simp add: solve_def solve_try_def)

lemma solve_calc_fails:
  assumes "encode_hands hands_dict (new_deal, 0) = (deal, 52)"
    and "CalcDDtable lib deal = Inr (res_dd, table)" and "res_dd \<noteq> 1"
  shows "solve lib decode hands_dict round_num =
           (default_result\<lparr>message := ''DDS CalcDDtable Error: '' @ str_int res_dd\<rparr>,
            [Call_CalcDDtable deal])"
  using assms by (simp add: solve_def solve_try_def)

lemma solve_try_calc_ok:
  assumes "encode_hands hands_dict (new_deal, 0) = (deal, 52)"
    and "CalcDDtable lib deal = Inr (1, table)"
  shows "solve_try lib decode hands_dict round_num rd =
           par_stage lib decode table round_num rd [Call_CalcDDtable deal]"
  using assms by (simp add: solve_try_def)

lemma vuln_label_of_code:
  assumes "get_vulnerability round_num = Inr vul_val"
  shows "py_getitem vuln_labels vul_val =
           Inr (spec_vulnerability_table ! nat ((round_num - 1) mod 16))"
  using vulnerability_lookup [of round_num] assms by auto

lemma par_stage_raises:
  assumes "get_vulnerability round_num = Inr vul_val"
    and "Par lib table vul_val = Inl e"
  shows "par_stage lib decode table round_num rd calls = (Inl e, calls @ [Call_Par table vul_val])"
  using assms vuln_label_of_code [OF assms(1)] by (simp add: par_stage_def)

lemma par_stage_fails:
  assumes "get_vulnerability round_num = Inr vul_val"
    and "Par lib table vul_val = Inr (res_par, table', pres)" and "res_par \<noteq> 1"
  shows "par_stage lib decode table round_num rd calls =
           (Inr (rd\<lparr>message := ''DDS Par Error: '' @ str_int res_par,
                     status := ''ok'',
                     dd_table := structured_dd table',
                     par_result :=
                       \<lparr>vulnerability = spec_vulnerability_table ! nat ((round_num - 1) mod 16),
                        optimal_contract = ''-'', score = ''0''\<rparr>\<rparr>),
            calls @ [Call_Par table vul_val])"
  using assms vuln_label_of_code [OF assms(1)] by (simp add: par_stage_def)

lemma par_stage_succeeds:
  assumes "get_vulnerability round_num = Inr vul_val"
    and "Par lib table vul_val = Inr (1, table', pres)"
  shows "par_stage lib decode table round_num rd calls =
           (Inr (rd\<lparr>status := ''ok'',
                     dd_table := structured_dd table',
                     par_result :=
                       \<lparr>vulnerability = spec_vulnerability_table ! nat ((round_num - 1) mod 16),
                        optimal_contract = fst (decode_par decode pres),
                        score = snd (decode_par decode pres)\<rparr>\<rparr>),
            calls @ [Call_Par table vul_val])"
  using assms vuln_label_of_code [OF assms(1)]
  by (simp add: par_stage_def case_prod_beta)

lemma solve_of_try:
  "solve lib decode hands_dict round_num =
     (case solve_try lib decode hands_dict round_num default_result of
        (Inr r, calls) \<Rightarrow> (r, calls)
      | (Inl e, calls) \<Rightarrow>
          (default_result\<lparr>message := ''Python Exception: '' @ str_exc e\<rparr>, calls))"
  by (simp add: solve_def)

lemma par_stage_status:
  assumes "par_stage lib decode table round_num default_result calls = (Inr rd, calls')"
  shows "status rd = ''ok''"
  using assms
  by (auto simp: par_stage_def Let_def case_prod_beta split: sum.splits if_splits)

lemma solve_try_status:
  assumes "solve_try lib decode hands_dict round_num default_result = (Inr rd, calls)"
  shows "status rd = ''ok'' \<or> status rd = ''error''"
proof (cases "snd (encode_hands hands_dict (new_deal, 0)) = 52")
  case False
  with assms show ?thesis
    by (auto simp: solve_try_def case_prod_beta default_result_def)
next
  case True
  then obtain deal where enc: "encode_hands hands_dict (new_deal, 0) = (deal, 52)"
    by (cases "encode_hands hands_dict (new_deal, 0)") simp
  show ?thesis
  proof (cases "CalcDDtable lib deal")
    case (Inl e)
    with assms enc show ?thesis by (simp add: solve_try_def)
  next
    case (Inr p)
    obtain res_dd table where p: "p = (res_dd, table)" by (cases p)
    show ?thesis
    proof (cases "res_dd = 1")
      case True
      with assms enc Inr p
      have "par_stage lib decode table round_num default_result [Call_CalcDDtable deal] = (Inr rd, calls)"
        by (simp add: solve_try_def)
      then show ?thesis by (simp add: par_stage_status)
    next
      case False
      with assms enc Inr p show ?thesis
        by (auto simp: solve_try_def default_result_def)
    qed
  qed
qed

subsection \<open>Decoding the par result\<close>

lemma split_length:
  "length (split sep s) = Suc (length (filter (\<lambda>c. c = sep) s))"
  by (induction s) (auto split: list.splits)

lemma split_second_exists:
  assumes "sep \<in> set s"
  shows "\<exists>piece. py_getitem (split sep s) 1 = Inr piece"
proof -
  from assms have "filter (\<lambda>c. c = sep) s \<noteq> []"
    by (auto simp: filter_empty_conv)
  then have "2 \<le> length (split sep s)"
    by (cases "filter (\<lambda>c. c = sep) s") (simp_all add: split_length)
  then show ?thesis
    by (simp add: py_getitem_def)
qed

lemma format_contract_raises_iff:
  "format_contract decode buf = Inl e \<longleftrightarrow> decode (c_value buf) = Inl e"
proof (cases "decode (c_value buf)")
  case (Inl e')
  then show ?thesis by (simp add: format_contract_def)
next
  case (Inr s)
  show ?thesis
  proof (cases "CHR '':'' \<in> set s")
    case True
    from split_second_exists [OF this] Inr True show ?thesis
      by (auto simp: format_contract_def)
  next
    case False
    with Inr show ?thesis by (simp add: format_contract_def)
  qed
qed

lemma format_contract_no_colon:
  assumes "decode (c_value buf) = Inr s" and "CHR '':'' \<notin> set s"
  shows "format_contract decode buf = Inr s"
  using assms by (simp add: format_contract_def)

lemma decode_par_contract_error:
  assumes "decode (c_value (fst (parContractsString pres))) = Inl err"
  shows "decode_par decode pres = (''Decode Error: '' @ str_exc err, ''0'')"
proof -
  from assms have "format_contract decode (fst (parContractsString pres)) = Inl err"
    by (simp add: format_contract_raises_iff)
  then show ?thesis by (simp add: decode_par_def)
qed

lemma decode_par_score_error:
  assumes "decode (c_value (fst (parContractsString pres))) = Inr s"
    and "decode (c_value (fst (parScore pres))) = Inl err"
  shows "decode_par decode pres = (''Decode Error: '' @ str_exc err, ''0'')"
proof (cases "format_contract decode (fst (parContractsString pres))")
  case (Inl e)
  with assms(1) show ?thesis by (simp add: format_contract_raises_iff)
next
  case (Inr contract)
  with assms(2) show ?thesis by (simp add: decode_par_def)
qed

lemma spec_label_not_unknown:
  assumes "k < 16"
  shows "spec_vulnerability_table ! k \<noteq> ''Unknown''"
proof -
  have "list_all (\<lambda>l. l \<noteq> ''Unknown'') spec_vulnerability_table"
    by (simp add: spec_vulnerability_table_def)
  with assms show ?thesis
    by (simp add: list_all_length spec_vulnerability_table_def)
qed

subsection \<open>The sample inputs, evaluated\<close>

lemma encode_main_hands:
  "encode_hands main_hands (new_deal, 0) = (main_deal, 52)"
  unfolding main_deal_def by code_simp

lemma encode_hands_51:
  "snd (encode_hands hands_51 (new_deal, 0)) = 51"
  by code_simp

lemma str_int_51: "str_int 51 = ''51''"
  by code_simp

lemma c_value_c_buffer:
  assumes "CHR 0x00 \<notin> set s"
  shows "c_value (c_buffer capacity s) = s"
proof -
  have "takeWhile (\<lambda>b. b \<noteq> CHR 0x00) (replicate k (CHR 0x00)) = []" for k
    by (cases k) simp_all
  moreover from assms have "\<And>b. b \<in> set s \<Longrightarrow> b \<noteq> CHR 0x00"
    by auto
  ultimately show ?thesis
    by (simp add: c_value_def c_buffer_def takeWhile_append2)
qed

lemma fixed_engine_calls:
  "CalcDDtable (fixed_engine res_dd res_par pres) deal = Inr (res_dd, zero_table)"
  "Par (fixed_engine res_dd res_par pres) table vul = Inr (res_par, table, pres)"
  by (simp_all add: fixed_engine_def)

lemma get_vulnerability_samples:
  "get_vulnerability 1 = Inr 0" "get_vulnerability 4 = Inr 3"
  by (simp_all add: get_vulnerability_value vul_pattern_def)

lemma str_int_samples:
  "str_int (- 5) = ''-5''" "str_int (- 2) = ''-2''"
  by code_simp+

subsection \<open>The encoding loop as a fold\<close>

lemma encode_card_target:
  "encode_card p_idx c st =
     (case card_target c of
        None \<Rightarrow> st
      | Some (suit_idx, b) \<Rightarrow> (or_card (fst st) p_idx suit_idx b, snd st + 1))"
  by (simp add: encode_card_def card_target_def Let_def split: option.splits)

lemma encode_cards_fold:
  "encode_cards p_idx cs (deal, n) =
     (fold place (seat_cards p_idx cs) deal, n + int (length (seat_cards p_idx cs)))"
proof (induction cs arbitrary: deal n)
  case Nil
  then show ?case by (simp add: seat_cards_def)
next
  case (Cons c cs)
  show ?case
  proof (cases "card_target c")
    case None
    then show ?thesis
      using Cons.IH [of deal n]
      by (simp add: encode_card_target seat_cards_def)
  next
    case (Some t)
    obtain suit_idx b where t: "t = (suit_idx, b)" by (cases t)
    from Some t show ?thesis
      using Cons.IH [of "or_card deal p_idx suit_idx b" "n + 1"]
      by (simp add: encode_card_target seat_cards_def place_def)
  qed
qed

lemma encode_hands_fold:
  "encode_hands hands_dict (deal, n) =
     (fold place (accepted_cards hands_dict) deal,
      n + int (length (accepted_cards hands_dict)))"
proof (induction hands_dict arbitrary: deal n)
  case Nil
  then show ?case by (simp add: accepted_cards_def)
next
  case (Cons item rest)
  obtain player cs where item: "item = (player, cs)" by (cases item)
  show ?case
  proof (cases "HandMap player")
    case None
    with item Cons.IH [of deal n] show ?thesis
      by (simp add: accepted_cards_def)
  next
    case (Some p_idx)
    with item
      Cons.IH [of "fold place (seat_cards p_idx cs) deal" "n + int (length (seat_cards p_idx cs))"]
    show ?thesis
      by (simp add: accepted_cards_def encode_cards_fold)
  qed
qed

lemma HandMap_range: "HandMap player = Some p_idx \<Longrightarrow> p_idx < 4"
  by (auto simp: HandMap_def split: if_splits)

lemma SuitMap_range: "SuitMap suit_char = Some suit_idx \<Longrightarrow> suit_idx < 4"
  by (auto simp: SuitMap_def split: if_splits)

lemma RankMap_single_bit: "RankMap rank_char = Some b \<Longrightarrow> \<exists>k<32. b = 2 ^ k"
  unfolding RankMap_def
  by (auto split: if_splits intro: exI [of _ "2::nat"] exI [of _ "3::nat"] exI [of _ "4::nat"]
        exI [of _ "5::nat"] exI [of _ "6::nat"] exI [of _ "7::nat"] exI [of _ "8::nat"]
        exI [of _ "9::nat"] exI [of _ "10::nat"] exI [of _ "11::nat"] exI [of _ "12::nat"]
        exI [of _ "13::nat"] exI [of _ "14::nat"])

lemma card_target_range:
  assumes "card_target c = Some (suit_idx, b)"
  shows "suit_idx < 4 \<and> (\<exists>k<32. b = 2 ^ k)"
  using assms
  by (auto simp: card_target_def split: if_splits option.splits
        dest: SuitMap_range RankMap_single_bit)

lemma seat_cards_Cons:
  "seat_cards p_idx (c # cs) =
     (case card_target c of None \<Rightarrow> [] | Some (suit_idx, b) \<Rightarrow> [(p_idx, suit_idx, b)])
     @ seat_cards p_idx cs"
  by (simp add: seat_cards_def)

lemma in_seat_cards:
  "(p, suit_idx, b) \<in> set (seat_cards p_idx cs) \<longleftrightarrow>
     p = p_idx \<and> (\<exists>c \<in> set cs. card_target c = Some (suit_idx, b))"
proof (induction cs)
  case Nil
  show ?case by (simp add: seat_cards_def)
next
  case (Cons c cs)
  show ?case
  proof (cases "card_target c")
    case None
    with Cons.IH show ?thesis by (auto simp: seat_cards_Cons)
  next
    case (Some t)
    obtain s' b' where "t = (s', b')" by (cases t)
    with Some Cons.IH show ?thesis by (auto simp: seat_cards_Cons)
  qed
qed

lemma in_accepted_cards:
  "(p_idx, suit_idx, b) \<in> set (accepted_cards hands_dict) \<longleftrightarrow>
     (\<exists>player c. (player, c) \<in> set (seat_tokens hands_dict) \<and>
        HandMap player = Some p_idx \<and> card_target c = Some (suit_idx, b))"
proof (induction hands_dict)
  case Nil
  then show ?case by (simp add: accepted_cards_def seat_tokens_def)
next
  case (Cons item rest)
  obtain player cs where item: "item = (player, cs)" by (cases item)
  have acc: "accepted_cards (item # rest) =
      (case HandMap player of None \<Rightarrow> [] | Some p \<Rightarrow> seat_cards p cs) @ accepted_cards rest"
    by (simp add: accepted_cards_def item)
  have tok: "set (seat_tokens (item # rest)) = Pair player ` set cs \<union> set (seat_tokens rest)"
    by (simp add: seat_tokens_def item)
  show ?case
  proof (cases "HandMap player")
    case None
    then show ?thesis
      unfolding acc tok using Cons.IH by auto
  next
    case (Some p)
    then show ?thesis
      unfolding acc tok using Cons.IH by (auto simp: in_seat_cards)
  qed
qed

lemma accepted_in_range:
  assumes "(p_idx, suit_idx, b) \<in> set (accepted_cards hands_dict)"
  shows "p_idx < 4 \<and> suit_idx < 4 \<and> (\<exists>k<32. b = 2 ^ k)"
  using assms
  by (auto simp: in_accepted_cards dest: HandMap_range card_target_range)

lemma wf_deal_lengths:
  assumes "wf_deal deal"
  shows "length (cards deal) = 4" and "p < 4 \<Longrightarrow> length (cards deal ! p) = 4"
proof -
  from assms have m: "map length (cards deal) = [4, 4, 4, 4]"
    by (simp add: wf_deal_def)
  then have "length (map length (cards deal)) = 4"
    by simp
  then show len: "length (cards deal) = 4"
    by simp
  assume p: "p < 4"
  with len have "length (cards deal ! p) = map length (cards deal) ! p"
    by simp
  also from p have "\<dots> = 4"
    unfolding m by (cases p rule: nat.exhaust) (auto simp: nth_Cons' less_Suc_eq)
  finally show "length (cards deal ! p) = 4" .
qed

lemma wf_new_deal: "wf_deal new_deal"
  by (simp add: wf_deal_def new_deal_def numeral_eq_Suc)

lemma wf_place:
  assumes "wf_deal deal"
  shows "wf_deal (place t deal)"
proof -
  let ?p = "fst t"
  let ?row = "(cards deal ! ?p)[fst (snd t) := (cards deal ! ?p ! fst (snd t)) OR snd (snd t)]"
  have "map length ((cards deal)[?p := ?row]) = map length (cards deal)"
  proof (cases "?p < length (cards deal)")
    case True
    then have "(map length (cards deal))[?p := length ?row] = map length (cards deal)"
      by (simp add: list_update_same_conv)
    then show ?thesis by (simp add: map_update)
  next
    case False
    then have "length (cards deal) \<le> ?p" by simp
    then show ?thesis by (simp add: list_update_beyond)
  qed
  with assms show ?thesis
    by (simp add: wf_deal_def place_def or_card_def)
qed

lemma cell_place:
  assumes "wf_deal deal" and "fst t < 4" and "fst (snd t) < 4"
  shows "cell (place t deal) p s =
           (if p = fst t \<and> s = fst (snd t) then cell deal p s OR snd (snd t)
            else cell deal p s)"
proof -
  from wf_deal_lengths [OF assms(1)] assms(2,3)
  have "fst t < length (cards deal)" "fst (snd t) < length (cards deal ! fst t)"
    by simp_all
  then show ?thesis
    by (simp add: cell_def place_def or_card_def nth_list_update)
qed

lemma cell_fold_place:
  assumes "wf_deal deal" and "\<forall>t \<in> set ts. fst t < 4 \<and> fst (snd t) < 4"
  shows "wf_deal (fold place ts deal) \<and>
         (bit (cell (fold place ts deal) p s) n \<longleftrightarrow>
            bit (cell deal p s) n \<or> (\<exists>b. (p, s, b) \<in> set ts \<and> bit b n))"
  using assms
proof (induction ts arbitrary: deal)
  case Nil
  then show ?case by simp
next
  case (Cons t ts)
  obtain p' s' b' where t: "t = (p', s', b')" by (cases t)
  from Cons.prems t have rng: "fst t < 4" "fst (snd t) < 4"
    and rest: "\<forall>t \<in> set ts. fst t < 4 \<and> fst (snd t) < 4"
    by simp_all
  note wf' = wf_place [OF Cons.prems(1), of t]
  note step = cell_place [OF Cons.prems(1) rng, of p s]
  from Cons.IH [OF wf' rest] step t show ?case
    by (auto simp: bit_or_iff)
qed

lemma deal_eqI:
  assumes "wf_deal d1" and "wf_deal d2"
    and "\<And>p s. p < 4 \<Longrightarrow> s < 4 \<Longrightarrow> cell d1 p s = cell d2 p s"
  shows "d1 = d2"
proof -
  have "cards d1 = cards d2"
  proof (rule nth_equalityI)
    show "length (cards d1) = length (cards d2)"
      using wf_deal_lengths(1) [OF assms(1)] wf_deal_lengths(1) [OF assms(2)] by simp
  next
    fix p assume "p < length (cards d1)"
    then have p: "p < 4"
      using wf_deal_lengths(1) [OF assms(1)] by simp
    show "cards d1 ! p = cards d2 ! p"
    proof (rule nth_equalityI)
      show "length (cards d1 ! p) = length (cards d2 ! p)"
        using wf_deal_lengths(2) [OF assms(1) p] wf_deal_lengths(2) [OF assms(2) p] by simp
    next
      fix s assume "s < length (cards d1 ! p)"
      then have "s < 4"
        using wf_deal_lengths(2) [OF assms(1) p] by simp
      from assms(3) [OF p this] show "cards d1 ! p ! s = cards d2 ! p ! s"
        by (simp add: cell_def)
    qed
  qed
  then show ?thesis by simp
qed

lemma accepted_range_all:
  "\<forall>t \<in> set (accepted_cards hands_dict). fst t < 4 \<and> fst (snd t) < 4"
proof
  fix t assume m: "t \<in> set (accepted_cards hands_dict)"
  obtain p s b where t: "t = (p, s, b)" by (cases t)
  from m t accepted_in_range [of p s b hands_dict] show "fst t < 4 \<and> fst (snd t) < 4"
    by simp
qed

lemma same_tokens_same_cards:
  assumes "set (seat_tokens hands1) = set (seat_tokens hands2)"
  shows "set (accepted_cards hands1) = set (accepted_cards hands2)"
proof (rule set_eqI)
  fix t :: "nat \<times> nat \<times> c_uint"
  obtain p s b where t: "t = (p, s, b)" by (cases t)
  show "t \<in> set (accepted_cards hands1) \<longleftrightarrow> t \<in> set (accepted_cards hands2)"
    unfolding t in_accepted_cards assms ..
qed

lemma fold_place_same_set:
  assumes "set (accepted_cards hands1) = set (accepted_cards hands2)" and "wf_deal deal"
  shows "fold place (accepted_cards hands1) deal = fold place (accepted_cards hands2) deal"
proof (rule deal_eqI)
  note c1 = cell_fold_place [OF assms(2) accepted_range_all [of hands1]]
  note c2 = cell_fold_place [OF assms(2) accepted_range_all [of hands2]]
  from c1 show "wf_deal (fold place (accepted_cards hands1) deal)" by simp
  from c2 show "wf_deal (fold place (accepted_cards hands2) deal)" by simp
  fix p s :: nat
  show "cell (fold place (accepted_cards hands1) deal) p s =
        cell (fold place (accepted_cards hands2) deal) p s"
  proof (rule bit_eqI)
    fix n
    from c1 [of p s n] c2 [of p s n] assms(1)
    show "bit (cell (fold place (accepted_cards hands1) deal) p s) n \<longleftrightarrow>
          bit (cell (fold place (accepted_cards hands2) deal) p s) n"
      by simp
  qed
qed

lemma fold_place_again:
  assumes "set (accepted_cards hands1) = set (accepted_cards hands2)" and "wf_deal deal"
  shows "fold place (accepted_cards hands2) (fold place (accepted_cards hands1) deal) =
         fold place (accepted_cards hands1) deal"
proof (rule deal_eqI)
  note c1 = cell_fold_place [OF assms(2) accepted_range_all [of hands1]]
  from c1 have wf1: "wf_deal (fold place (accepted_cards hands1) deal)" by simp
  note c2 = cell_fold_place [OF wf1 accepted_range_all [of hands2]]
  from c2 show "wf_deal (fold place (accepted_cards hands2)
                  (fold place (accepted_cards hands1) deal))" by simp
  from wf1 show "wf_deal (fold place (accepted_cards hands1) deal)" .
  fix p s :: nat
  show "cell (fold place (accepted_cards hands2) (fold place (accepted_cards hands1) deal)) p s =
        cell (fold place (accepted_cards hands1) deal) p s"
  proof (rule bit_eqI)
    fix n
    from c1 [of p s n] c2 [of p s n] assms(1)
    show "bit (cell (fold place (accepted_cards hands2)
                 (fold place (accepted_cards hands1) deal)) p s) n \<longleftrightarrow>
          bit (cell (fold place (accepted_cards hands1) deal) p s) n"
      by auto
  qed
qed

subsection \<open>Counting the bits of the table\<close>

lemma filter_one_more:
  assumes "distinct xs" and "k \<in> set xs" and "\<not> P k"
  shows "length (filter (\<lambda>n. P n \<or> n = k) xs) = Suc (length (filter P xs))"
  using assms
proof (induction xs)
  case Nil
  then show ?case by simp
next
  case (Cons x xs)
  show ?case
  proof (cases "x = k")
    case True
    with Cons.prems have "k \<notin> set xs" by simp
    then have "filter (\<lambda>n. P n \<or> n = k) xs = filter P xs"
      by (intro filter_cong) auto
    with True Cons.prems(3) show ?thesis by simp
  next
    case False
    with Cons.prems have "distinct xs" "k \<in> set xs" by simp_all
    from Cons.IH [OF this Cons.prems(3)] False show ?thesis by simp
  qed
qed

lemma popcount_or_bit:
  fixes w :: c_uint
  assumes "k < 32" and "\<not> bit w k"
  shows "popcount (w OR 2 ^ k) = Suc (popcount w)"
proof -
  have "bit (w OR 2 ^ k) = (\<lambda>n. bit w n \<or> n = k)"
    using assms(1) by (auto simp: fun_eq_iff bit_or_iff bit_exp_iff)
  moreover have "length (filter (\<lambda>n. bit w n \<or> n = k) [0..<32]) =
                 Suc (length (filter (bit w) [0..<32]))"
    by (rule filter_one_more) (use assms in simp_all)
  ultimately show ?thesis by (simp add: popcount_def)
qed

lemma popcount_zero: "popcount 0 = 0"
  by (simp add: popcount_def)

lemma sum_list_map_update:
  fixes f :: "'a \<Rightarrow> nat"
  assumes "i < length xs"
  shows "sum_list (map f (xs[i := v])) + f (xs ! i) = sum_list (map f xs) + f v"
  using assms
proof (induction xs arbitrary: i)
  case Nil
  then show ?case by simp
next
  case (Cons x xs)
  show ?case
  proof (cases i)
    case 0
    then show ?thesis by simp
  next
    case (Suc j)
    with Cons.prems have "j < length xs" by simp
    from Cons.IH [OF this] Suc show ?thesis by simp
  qed
qed

lemma sum_list_map_concat:
  fixes f :: "'a \<Rightarrow> nat"
  shows "sum_list (map f (concat xss)) = sum_list (map (\<lambda>xs. sum_list (map f xs)) xss)"
  by (induction xss) simp_all

lemma deal_popcount_rows:
  "deal_popcount deal = sum_list (map (\<lambda>row. sum_list (map popcount row)) (cards deal))"
  by (simp add: deal_popcount_def sum_list_map_concat)

lemma deal_popcount_place:
  assumes "wf_deal deal" and "p < 4" and "s < 4" and "k < 32"
    and "\<not> bit (cell deal p s) k"
  shows "deal_popcount (place (p, s, 2 ^ k) deal) = Suc (deal_popcount deal)"
proof -
  let ?rows = "cards deal"
  let ?row = "?rows ! p"
  let ?c = "?row ! s"
  let ?row' = "?row[s := ?c OR 2 ^ k]"
  let ?rowsum = "\<lambda>row. sum_list (map popcount row)"
  from wf_deal_lengths [OF assms(1)] assms(2,3)
  have p: "p < length ?rows" and s: "s < length ?row"
    by simp_all
  from assms(5) have fresh: "\<not> bit ?c k" by (simp add: cell_def)
  have a: "?rowsum ?row' + popcount ?c = ?rowsum ?row + popcount (?c OR 2 ^ k)"
    by (rule sum_list_map_update [OF s])
  have b: "sum_list (map ?rowsum (?rows[p := ?row'])) + ?rowsum ?row =
           sum_list (map ?rowsum ?rows) + ?rowsum ?row'"
    by (rule sum_list_map_update [OF p])
  have c: "popcount (?c OR 2 ^ k) = Suc (popcount ?c)"
    by (rule popcount_or_bit [OF assms(4) fresh])
  from a b c have "sum_list (map ?rowsum (?rows[p := ?row'])) = Suc (sum_list (map ?rowsum ?rows))"
    by linarith
  then show ?thesis
    by (simp add: deal_popcount_rows place_def or_card_def)
qed

lemma popcount_fold_place:
  assumes "wf_deal deal"
    and "\<forall>t \<in> set ts. fst t < 4 \<and> fst (snd t) < 4 \<and> (\<exists>k<32. snd (snd t) = 2 ^ k)"
    and "distinct ts"
    and "\<forall>p s k. (p, s, 2 ^ k) \<in> set ts \<longrightarrow> k < 32 \<longrightarrow> \<not> bit (cell deal p s) k"
  shows "deal_popcount (fold place ts deal) = deal_popcount deal + length ts"
  using assms
proof (induction ts arbitrary: deal)
  case Nil
  then show ?case by simp
next
  case (Cons t ts)
  from Cons.prems(2) obtain p s k where t: "t = (p, s, 2 ^ k)"
    and rng: "p < 4" "s < 4" "k < 32"
    by (cases t) auto
  from Cons.prems(4) t rng have fresh: "\<not> bit (cell deal p s) k"
    by simp
  note wf' = wf_place [OF Cons.prems(1), of t]
  from Cons.prems(2) have rest: "\<forall>t \<in> set ts. fst t < 4 \<and> fst (snd t) < 4 \<and>
      (\<exists>k<32. snd (snd t) = 2 ^ k)"
    by simp
  from Cons.prems(3) have dist: "distinct ts" and notin: "t \<notin> set ts"
    by simp_all
  have fresh': "\<forall>p' s' k'. (p', s', 2 ^ k') \<in> set ts \<longrightarrow> k' < 32 \<longrightarrow>
      \<not> bit (cell (place t deal) p' s') k'"
  proof (intro allI impI)
    fix p' s' k'
    assume m: "(p', s', (2 :: c_uint) ^ k') \<in> set ts" and k': "k' < 32"
    from Cons.prems(4) m k' have old: "\<not> bit (cell deal p' s') k'"
      by simp
    have cp: "cell (place t deal) p' s' =
        (if p' = p \<and> s' = s then cell deal p' s' OR 2 ^ k else cell deal p' s')"
      using cell_place [OF Cons.prems(1), of t p' s'] t rng by simp
    show "\<not> bit (cell (place t deal) p' s') k'"
    proof (cases "p' = p \<and> s' = s")
      case False
      with cp old show ?thesis by simp
    next
      case True
      with m notin t have "k' \<noteq> k" by auto
      with cp True old show ?thesis
        by (simp add: bit_or_iff bit_exp_iff)
    qed
  qed
  from Cons.IH [OF wf' rest dist fresh']
    deal_popcount_place [OF Cons.prems(1) rng fresh] t
  show ?case by simp
qed

lemma deal_popcount_new_deal: "deal_popcount new_deal = 0"
  by (simp add: deal_popcount_def new_deal_def numeral_eq_Suc popcount_zero)

lemma cell_new_deal:
  assumes "p < 4" and "s < 4"
  shows "cell new_deal p s = 0"
  using assms by (simp add: cell_def new_deal_def)

lemma popcount_counts_distinct_cards:
  assumes "distinct (accepted_cards hands_dict)"
  shows "int (deal_popcount (fst (encode_hands hands_dict (new_deal, 0)))) =
           snd (encode_hands hands_dict (new_deal, 0))"
proof -
  have rng: "\<forall>t \<in> set (accepted_cards hands_dict).
      fst t < 4 \<and> fst (snd t) < 4 \<and> (\<exists>k<32. snd (snd t) = 2 ^ k)"
  proof
    fix t :: "nat \<times> nat \<times> c_uint"
    assume m: "t \<in> set (accepted_cards hands_dict)"
    obtain p s b where t: "t = (p, s, b)" by (cases t)
    from m t accepted_in_range [of p s b hands_dict]
    show "fst t < 4 \<and> fst (snd t) < 4 \<and> (\<exists>k<32. snd (snd t) = 2 ^ k)"
      by simp
  qed
  have fresh: "\<forall>p s k. (p, s, 2 ^ k) \<in> set (accepted_cards hands_dict) \<longrightarrow> k < 32 \<longrightarrow>
      \<not> bit (cell new_deal p s) k"
  proof (intro allI impI)
    fix p s k
    assume "(p, s, (2 :: c_uint) ^ k) \<in> set (accepted_cards hands_dict)"
    from accepted_in_range [OF this] show "\<not> bit (cell new_deal p s) k"
      by (simp add: cell_new_deal)
  qed
  from popcount_fold_place [OF wf_new_deal rng assms fresh]
  show ?thesis
    by (simp add: encode_hands_fold deal_popcount_new_deal)
qed

lemma encode_hands_dup:
  "encode_hands hands_dup (new_deal, 0) = (dup_deal, 52)"
  unfolding dup_deal_def by code_simp

lemma deal_popcount_dup: "deal_popcount dup_deal = 51"
  by code_simp

subsection \<open>The claims about solve\<close>

text \<open>
  C1. When the number of accepted tokens is not 52, \<open>solve\<close> returns status
  \<open>error\<close>, its message is \<open>Invalid card count: \<close> followed by that number, and
  no engine entry point was called. With 51 accepted tokens the message ends in 51.
\<close>

theorem solve_rejects_wrong_count:
  assumes "snd (encode_hands hands_dict (new_deal, 0)) = total_cards"
    and "total_cards \<noteq> 52"
  shows "status (fst (solve lib decode hands_dict round_num)) = ''error''
         \<and> message (fst (solve lib decode hands_dict round_num)) =
             ''Invalid card count: '' @ str_int total_cards
         \<and> snd (solve lib decode hands_dict round_num) = []"
proof -
  from assms have "snd (encode_hands hands_dict (new_deal, 0)) \<noteq> 52"
    by simp
  from solve_invalid_count [OF this] assms(1) show ?thesis
    by (simp add: default_result_def)
qed

theorem solve_rejects_wrong_count_witness:
  "snd (encode_hands hands_51 (new_deal, 0)) = 51 \<and> (51 :: int) \<noteq> 52
   \<and> status (fst (solve raising_engine decode_7bit hands_51 1)) = ''error''
   \<and> message (fst (solve raising_engine decode_7bit hands_51 1)) = ''Invalid card count: 51''
   \<and> snd (solve raising_engine decode_7bit hands_51 1) = []"
proof -
  have ne: "(51 :: int) \<noteq> 52" by simp
  from solve_rejects_wrong_count [OF encode_hands_51 ne, of raising_engine decode_7bit 1]
  show ?thesis
    by (simp add: encode_hands_51 str_int_51)
qed

text \<open>
  C2. After 52 accepted tokens, a \<open>CalcDDtable\<close> code of 1 gives status \<open>ok\<close>
  whatever code \<open>Par\<close> returns, with both engine calls made. The envelope of a
  \<open>Par\<close> code other than 1 differs from the envelope of success only in the message
  (\<open>DDS Par Error: \<close> and the code) and in the two par fields, the contract \<open>-\<close> and
  the score \<open>0\<close>: the status, the trick table and the vulnerability label are those of
  success. A \<open>CalcDDtable\<close> code other than 1 gives the default envelope with status
  \<open>error\<close>, only the message set, and \<open>Par\<close> is not called.
\<close>

theorem trick_stage_decides_status:
  assumes "encode_hands hands_dict (new_deal, 0) = (deal, 52)"
    and "CalcDDtable lib deal = Inr (res_dd, table)"
    and "get_vulnerability round_num = Inr vul_val"
  shows "(res_dd = 1 \<longrightarrow>
            (\<forall>res_par table' pres.
               Par lib table vul_val = Inr (res_par, table', pres) \<longrightarrow>
               status (fst (solve lib decode hands_dict round_num)) = ''ok''
               \<and> snd (solve lib decode hands_dict round_num) =
                   [Call_CalcDDtable deal, Call_Par table vul_val]
               \<and> (res_par \<noteq> 1 \<longrightarrow>
                    fst (solve lib decode hands_dict round_num) =
                      \<lparr>status = ''ok'',
                       message = ''DDS Par Error: '' @ str_int res_par,
                       dd_table = structured_dd table',
                       par_result =
                         \<lparr>vulnerability =
                            spec_vulnerability_table ! nat ((round_num - 1) mod 16),
                          optimal_contract = ''-'', score = ''0''\<rparr>\<rparr>)
               \<and> (res_par = 1 \<longrightarrow>
                    fst (solve lib decode hands_dict round_num) =
                      \<lparr>status = ''ok'',
                       message = [],
                       dd_table = structured_dd table',
                       par_result =
                         \<lparr>vulnerability =
                            spec_vulnerability_table ! nat ((round_num - 1) mod 16),
                          optimal_contract = fst (decode_par decode pres),
                          score = snd (decode_par decode pres)\<rparr>\<rparr>)))
         \<and> (res_dd \<noteq> 1 \<longrightarrow>
              status (fst (solve lib decode hands_dict round_num)) = ''error''
              \<and> fst (solve lib decode hands_dict round_num) =
                  \<lparr>status = ''error'',
                   message = ''DDS CalcDDtable Error: '' @ str_int res_dd,
                   dd_table = [],
                   par_result =
                     \<lparr>vulnerability = ''Unknown'', optimal_contract = ''-'', score = ''0''\<rparr>\<rparr>
              \<and> snd (solve lib decode hands_dict round_num) = [Call_CalcDDtable deal])"
proof (intro conjI impI allI)
  assume ne: "res_dd \<noteq> 1"
  note failed = solve_calc_fails [OF assms(1,2) ne, of decode round_num]
  from failed show "status (fst (solve lib decode hands_dict round_num)) = ''error''"
    by (simp add: default_result_def)
  from failed show "fst (solve lib decode hands_dict round_num) =
      \<lparr>status = ''error'',
       message = ''DDS CalcDDtable Error: '' @ str_int res_dd,
       dd_table = [],
       par_result = \<lparr>vulnerability = ''Unknown'', optimal_contract = ''-'', score = ''0''\<rparr>\<rparr>"
    by (simp add: default_result_def)
  from failed show "snd (solve lib decode hands_dict round_num) = [Call_CalcDDtable deal]"
    by simp
next
  fix res_par table' pres
  assume one: "res_dd = 1" and par: "Par lib table vul_val = Inr (res_par, table', pres)"
  from assms(2) one have calc: "CalcDDtable lib deal = Inr (1, table)" by simp
  note body = solve_try_calc_ok [OF assms(1) calc]
  have both: "status (fst (solve lib decode hands_dict round_num)) = ''ok''
      \<and> snd (solve lib decode hands_dict round_num) =
          [Call_CalcDDtable deal, Call_Par table vul_val]"
  proof (cases "res_par = 1")
    case True
    with par have "Par lib table vul_val = Inr (1, table', pres)" by simp
    from par_stage_succeeds [OF assms(3) this] show ?thesis
      by (simp add: solve_of_try body)
  next
    case False
    from par_stage_fails [OF assms(3) par False] show ?thesis
      by (simp add: solve_of_try body)
  qed
  from both show "status (fst (solve lib decode hands_dict round_num)) = ''ok''"
    by simp
  from both show "snd (solve lib decode hands_dict round_num) =
      [Call_CalcDDtable deal, Call_Par table vul_val]"
    by simp
  {
    assume ne: "res_par \<noteq> 1"
    from par_stage_fails [OF assms(3) par ne]
    show "fst (solve lib decode hands_dict round_num) =
        \<lparr>status = ''ok'',
         message = ''DDS Par Error: '' @ str_int res_par,
         dd_table = structured_dd table',
         par_result =
           \<lparr>vulnerability = spec_vulnerability_table ! nat ((round_num - 1) mod 16),
            optimal_contract = ''-'', score = ''0''\<rparr>\<rparr>"
      by (simp add: solve_of_try body default_result_def)
  }
  {
    assume "res_par = 1"
    with par have "Par lib table vul_val = Inr (1, table', pres)" by simp
    from par_stage_succeeds [OF assms(3) this]
    show "fst (solve lib decode hands_dict round_num) =
        \<lparr>status = ''ok'',
         message = [],
         dd_table = structured_dd table',
         par_result =
           \<lparr>vulnerability = spec_vulnerability_table ! nat ((round_num - 1) mod 16),
            optimal_contract = fst (decode_par decode pres),
            score = snd (decode_par decode pres)\<rparr>\<rparr>"
      by (simp add: solve_of_try body default_result_def)
  }
qed

theorem trick_stage_decides_status_witness:
  "encode_hands main_hands (new_deal, 0) = (main_deal, 52)
   \<and> get_vulnerability 4 = Inr 3
   \<and> CalcDDtable (fixed_engine 1 (- 5) (par_buffers [] [])) main_deal = Inr (1, zero_table)
   \<and> Par (fixed_engine 1 (- 5) (par_buffers [] [])) zero_table 3 =
       Inr (- 5, zero_table, par_buffers [] [])
   \<and> solve (fixed_engine 1 (- 5) (par_buffers [] [])) decode_7bit main_hands 4 =
       (\<lparr>status = ''ok'', message = ''DDS Par Error: -5'',
         dd_table = structured_dd zero_table,
         par_result = \<lparr>vulnerability = ''Both'', optimal_contract = ''-'', score = ''0''\<rparr>\<rparr>,
        [Call_CalcDDtable main_deal, Call_Par zero_table 3])
   \<and> CalcDDtable (fixed_engine (- 2) 1 (par_buffers [] [])) main_deal = Inr (- 2, zero_table)
   \<and> solve (fixed_engine (- 2) 1 (par_buffers [] [])) decode_7bit main_hands 4 =
       (\<lparr>status = ''error'', message = ''DDS CalcDDtable Error: -2'',
         dd_table = [],
         par_result = \<lparr>vulnerability = ''Unknown'', optimal_contract = ''-'', score = ''0''\<rparr>\<rparr>,
        [Call_CalcDDtable main_deal])"
proof -
  let ?ok = "fixed_engine 1 (- 5) (par_buffers [] [])"
  let ?bad = "fixed_engine (- 2) 1 (par_buffers [] [])"
  have c1: "CalcDDtable ?ok main_deal = Inr (1, zero_table)"
    and p1: "Par ?ok zero_table 3 = Inr (- 5, zero_table, par_buffers [] [])"
    and c2: "CalcDDtable ?bad main_deal = Inr (- 2, zero_table)"
    by (simp_all add: fixed_engine_calls)
  have label: "spec_vulnerability_table ! 3 = ''Both''"
    by (simp add: spec_vulnerability_table_def)
  note a = trick_stage_decides_status
    [OF encode_main_hands c1 get_vulnerability_samples(2), of decode_7bit]
  note b = trick_stage_decides_status
    [OF encode_main_hands c2 get_vulnerability_samples(2), of decode_7bit]
  from a p1 have
    "fst (solve ?ok decode_7bit main_hands 4) =
       \<lparr>status = ''ok'', message = ''DDS Par Error: -5'',
        dd_table = structured_dd zero_table,
        par_result = \<lparr>vulnerability = ''Both'', optimal_contract = ''-'', score = ''0''\<rparr>\<rparr>
     \<and> snd (solve ?ok decode_7bit main_hands 4) =
         [Call_CalcDDtable main_deal, Call_Par zero_table 3]"
    by (simp add: label str_int_samples)
  then have ok: "solve ?ok decode_7bit main_hands 4 =
       (\<lparr>status = ''ok'', message = ''DDS Par Error: -5'',
         dd_table = structured_dd zero_table,
         par_result = \<lparr>vulnerability = ''Both'', optimal_contract = ''-'', score = ''0''\<rparr>\<rparr>,
        [Call_CalcDDtable main_deal, Call_Par zero_table 3])"
    by (simp add: prod_eq_iff)
  from b have
    "fst (solve ?bad decode_7bit main_hands 4) =
       \<lparr>status = ''error'', message = ''DDS CalcDDtable Error: -2'',
        dd_table = [],
        par_result = \<lparr>vulnerability = ''Unknown'', optimal_contract = ''-'', score = ''0''\<rparr>\<rparr>
     \<and> snd (solve ?bad decode_7bit main_hands 4) = [Call_CalcDDtable main_deal]"
    by (simp add: str_int_samples)
  then have bad: "solve ?bad decode_7bit main_hands 4 =
       (\<lparr>status = ''error'', message = ''DDS CalcDDtable Error: -2'',
         dd_table = [],
         par_result = \<lparr>vulnerability = ''Unknown'', optimal_contract = ''-'', score = ''0''\<rparr>\<rparr>,
        [Call_CalcDDtable main_deal])"
    by (simp add: prod_eq_iff)
  from encode_main_hands get_vulnerability_samples(2) c1 p1 ok c2 bad show ?thesis
    by blast
qed

lemma decode_7bit_sample:
  "decode_7bit ''NS:3NT:x'' = Inr ''NS:3NT:x''" "decode_7bit ''NS 400'' = Inr ''NS 400''"
  by (simp_all add: decode_7bit_def)

text \<open>
  C4, at a contract text with two colons. The docstring of \<open>_format_contract\<close> says
  it removes the \<open>NS:\<close> or \<open>EW:\<close> prefix; on \<open>NS:3NT:x\<close> it returns \<open>3NT\<close>,
  the piece between the first and the second colon, not the text \<open>3NT:x\<close> after the
  first colon, and that is what \<open>solve\<close> puts into \<open>optimal_contract\<close>.
\<close>

theorem format_contract_two_colons:
  "format_contract decode_7bit (c_buffer 128 ''NS:3NT:x'') = Inr ''3NT''
   \<and> format_contract decode_7bit (c_buffer 128 ''NS:3NT:x'') \<noteq> Inr ''3NT:x''
   \<and> optimal_contract (par_result
        (fst (solve (fixed_engine 1 1 (par_buffers ''NS:3NT:x'' ''NS 400'')) decode_7bit
           main_hands 1))) = ''3NT''"
proof -
  have v: "c_value (c_buffer 128 ''NS:3NT:x'') = ''NS:3NT:x''"
    "c_value (c_buffer 16 ''NS 400'') = ''NS 400''"
    by (simp_all add: c_value_c_buffer)
  have f: "format_contract decode_7bit (c_buffer 128 ''NS:3NT:x'') = Inr ''3NT''"
    by (simp add: format_contract_def v decode_7bit_sample py_getitem_def)
  let ?pres = "par_buffers ''NS:3NT:x'' ''NS 400''"
  have "decode_par decode_7bit ?pres = (''3NT'', ''NS 400'')"
    by (simp add: decode_par_def par_buffers_def f v decode_7bit_sample)
  with par_stage_succeeds [of 1 0 "fixed_engine 1 1 ?pres" zero_table zero_table ?pres
         decode_7bit default_result "[Call_CalcDDtable main_deal]"]
  have "optimal_contract (par_result
          (fst (solve (fixed_engine 1 1 ?pres) decode_7bit main_hands 1))) = ''3NT''"
    by (simp add: solve_of_try get_vulnerability_samples fixed_engine_calls
          solve_try_calc_ok [OF encode_main_hands fixed_engine_calls(1)])
  with f show ?thesis
    by simp
qed

text \<open>
  C5. \<open>solve\<close> always returns an envelope, whose status is \<open>ok\<close> or
  \<open>error\<close>; an exception raised anywhere in the body of its \<open>try\<close> ends in the
  handler, and the envelope is then the default one with status \<open>error\<close> and the
  message \<open>Python Exception: \<close> followed by the text of the exception.
\<close>

theorem solve_never_raises:
  "\<exists>envelope calls.
     solve lib decode hands_dict round_num = (envelope, calls)
     \<and> (status envelope = ''ok'' \<or> status envelope = ''error'')
     \<and> (\<forall>e calls'.
           solve_try lib decode hands_dict round_num default_result = (Inl e, calls') \<longrightarrow>
           status envelope = ''error''
           \<and> message envelope = ''Python Exception: '' @ str_exc e
           \<and> dd_table envelope = []
           \<and> par_result envelope =
               \<lparr>vulnerability = ''Unknown'', optimal_contract = ''-'', score = ''0''\<rparr>)"
proof (cases "solve_try lib decode hands_dict round_num default_result")
  case (Pair outcome calls)
  show ?thesis
  proof (cases outcome)
    case (Inl e)
    with Pair show ?thesis
      by (simp add: solve_of_try default_result_def)
  next
    case (Inr rd)
    with Pair solve_try_status [of lib decode hands_dict round_num rd calls] show ?thesis
      by (simp add: solve_of_try)
  qed
qed

theorem solve_never_raises_witness:
  "solve_try raising_engine decode_7bit main_hands 1 default_result =
     (Inl (Exception ''access violation''), [Call_CalcDDtable main_deal])
   \<and> status (fst (solve raising_engine decode_7bit main_hands 1)) = ''error''
   \<and> message (fst (solve raising_engine decode_7bit main_hands 1)) =
       ''Python Exception: access violation''
   \<and> dd_table (fst (solve raising_engine decode_7bit main_hands 1)) = []"
proof -
  have raised: "solve_try raising_engine decode_7bit main_hands 1 default_result =
                  (Inl (Exception ''access violation''), [Call_CalcDDtable main_deal])"
    by (simp add: solve_try_def encode_main_hands raising_engine_def)
  from solve_never_raises [of raising_engine decode_7bit main_hands 1]
  obtain envelope calls where
    ret: "solve raising_engine decode_7bit main_hands 1 = (envelope, calls)"
    and caught: "\<forall>e calls'.
           solve_try raising_engine decode_7bit main_hands 1 default_result = (Inl e, calls') \<longrightarrow>
           status envelope = ''error''
           \<and> message envelope = ''Python Exception: '' @ str_exc e
           \<and> dd_table envelope = []
           \<and> par_result envelope =
               \<lparr>vulnerability = ''Unknown'', optimal_contract = ''-'', score = ''0''\<rparr>"
    by blast
  from caught raised have
    "status envelope = ''error''
     \<and> message envelope = ''Python Exception: '' @ str_exc (Exception ''access violation'')
     \<and> dd_table envelope = []"
    by blast
  with ret raised show ?thesis
    by simp
qed

text \<open>
  C6. When \<open>CalcDDtable\<close> returns a code other than 1, the envelope has status
  \<open>error\<close>, an empty \<open>dd_table\<close> and the default \<open>par_result\<close> (\<open>Unknown\<close>,
  \<open>-\<close>, \<open>0\<close>), and \<open>solve_api\<close>, run on these hands and this round, leaves
  \<open>HISTORY_LOG\<close> as it was.
\<close>

theorem trick_failure_envelope:
  assumes "encode_hands hands_dict (new_deal, 0) = (deal, 52)"
    and "CalcDDtable lib deal = Inr (res_dd, table)"
    and "res_dd \<noteq> 1"
  shows "status (fst (solve lib decode hands_dict round_num)) = ''error''
         \<and> dd_table (fst (solve lib decode hands_dict round_num)) = []
         \<and> par_result (fst (solve lib decode hands_dict round_num)) =
             \<lparr>vulnerability = ''Unknown'', optimal_contract = ''-'', score = ''0''\<rparr>
         \<and> (CURRENT_HANDS st = hands_dict \<longrightarrow> GLOBAL_CONFIG_round st = round_num \<longrightarrow>
              HISTORY_LOG (snd (solve_api lib decode bid new_id now st)) = HISTORY_LOG st)"
  using solve_calc_fails [OF assms]
  by (simp add: default_result_def solve_api_def)

theorem trick_failure_envelope_witness:
  "encode_hands main_hands (new_deal, 0) = (main_deal, 52)
   \<and> CalcDDtable (fixed_engine (- 2) 1 (par_buffers [] [])) main_deal = Inr (- 2, zero_table)
   \<and> (- 2 :: int) \<noteq> 1
   \<and> status (fst (solve (fixed_engine (- 2) 1 (par_buffers [] [])) decode_7bit main_hands 1)) =
       ''error''
   \<and> dd_table (fst (solve (fixed_engine (- 2) 1 (par_buffers [] [])) decode_7bit main_hands 1)) = []
   \<and> par_result (fst (solve (fixed_engine (- 2) 1 (par_buffers [] [])) decode_7bit main_hands 1)) =
       \<lparr>vulnerability = ''Unknown'', optimal_contract = ''-'', score = ''0''\<rparr>
   \<and> HISTORY_LOG (snd (solve_api (fixed_engine (- 2) 1 (par_buffers [] [])) decode_7bit None
        ''id-1'' ''12:00:00''
        \<lparr>GLOBAL_CONFIG_round = 1, HISTORY_LOG = [], CURRENT_HANDS = main_hands\<rparr>)) = []"
proof -
  let ?lib = "fixed_engine (- 2) 1 (par_buffers [] [])"
  let ?st = "\<lparr>GLOBAL_CONFIG_round = 1, HISTORY_LOG = [], CURRENT_HANDS = main_hands\<rparr>"
  have c: "CalcDDtable ?lib main_deal = Inr (- 2, zero_table)"
    by (simp add: fixed_engine_calls)
  have ne: "(- 2 :: int) \<noteq> 1" by simp
  from trick_failure_envelope
    [OF encode_main_hands c ne, where decode = decode_7bit and round_num = 1 and st = "?st"
       and bid = None and new_id = "''id-1''" and now = "''12:00:00''"]
  have "status (fst (solve ?lib decode_7bit main_hands 1)) = ''error''
        \<and> dd_table (fst (solve ?lib decode_7bit main_hands 1)) = []
        \<and> par_result (fst (solve ?lib decode_7bit main_hands 1)) =
            \<lparr>vulnerability = ''Unknown'', optimal_contract = ''-'', score = ''0''\<rparr>
        \<and> HISTORY_LOG (snd (solve_api ?lib decode_7bit None ''id-1'' ''12:00:00'' ?st)) = []"
    by simp
  with encode_main_hands c ne show ?thesis
    by blast
qed

text \<open>
  C8. When \<open>Par\<close> succeeded and the bytes of the contract buffer, or else those of
  the score buffer, do not decode, the exception stays inside \<open>solve\<close>: the envelope
  has status \<open>ok\<close>, the trick table, \<open>optimal_contract\<close> equal to
  \<open>Decode Error: \<close> followed by the text of the decoding error, and score \<open>0\<close>.
\<close>

theorem decode_error_reported:
  assumes "encode_hands hands_dict (new_deal, 0) = (deal, 52)"
    and "CalcDDtable lib deal = Inr (1, table)"
    and "get_vulnerability round_num = Inr vul_val"
    and "Par lib table vul_val = Inr (1, table', pres)"
    and "decode (c_value (fst (parContractsString pres))) = Inl err
         \<or> (\<exists>s. decode (c_value (fst (parContractsString pres))) = Inr s
                 \<and> decode (c_value (fst (parScore pres))) = Inl err)"
  shows "status (fst (solve lib decode hands_dict round_num)) = ''ok''
         \<and> optimal_contract (par_result (fst (solve lib decode hands_dict round_num))) =
             ''Decode Error: '' @ str_exc err
         \<and> score (par_result (fst (solve lib decode hands_dict round_num))) = ''0''
         \<and> dd_table (fst (solve lib decode hands_dict round_num)) = structured_dd table'"
proof -
  from assms(5) have "decode_par decode pres = (''Decode Error: '' @ str_exc err, ''0'')"
    by (auto simp: decode_par_contract_error decode_par_score_error)
  with par_stage_succeeds [OF assms(3,4)] show ?thesis
    by (simp add: solve_of_try solve_try_calc_ok [OF assms(1,2)])
qed

theorem decode_error_reported_witness:
  "encode_hands main_hands (new_deal, 0) = (main_deal, 52)
   \<and> CalcDDtable (fixed_engine 1 1 (par_buffers [CHR 0xFF] ''NS 100'')) main_deal =
       Inr (1, zero_table)
   \<and> get_vulnerability 1 = Inr 0
   \<and> Par (fixed_engine 1 1 (par_buffers [CHR 0xFF] ''NS 100'')) zero_table 0 =
       Inr (1, zero_table, par_buffers [CHR 0xFF] ''NS 100'')
   \<and> decode_7bit (c_value (fst (parContractsString (par_buffers [CHR 0xFF] ''NS 100'')))) =
       Inl (Exception ''invalid start byte'')
   \<and> status (fst (solve (fixed_engine 1 1 (par_buffers [CHR 0xFF] ''NS 100'')) decode_7bit
         main_hands 1)) = ''ok''
   \<and> optimal_contract (par_result
        (fst (solve (fixed_engine 1 1 (par_buffers [CHR 0xFF] ''NS 100'')) decode_7bit
           main_hands 1))) = ''Decode Error: invalid start byte''
   \<and> score (par_result
        (fst (solve (fixed_engine 1 1 (par_buffers [CHR 0xFF] ''NS 100'')) decode_7bit
           main_hands 1))) = ''0''"
proof -
  let ?pres = "par_buffers [CHR 0xFF] ''NS 100''"
  let ?lib = "fixed_engine 1 1 ?pres"
  have c: "CalcDDtable ?lib main_deal = Inr (1, zero_table)"
    and p: "Par ?lib zero_table 0 = Inr (1, zero_table, ?pres)"
    by (simp_all add: fixed_engine_calls)
  have "c_value (fst (parContractsString ?pres)) = [CHR 0xFF]"
    by (simp add: par_buffers_def c_value_c_buffer)
  then have d: "decode_7bit (c_value (fst (parContractsString ?pres))) =
                  Inl (Exception ''invalid start byte'')"
    by (simp add: decode_7bit_def)
  then have h: "decode_7bit (c_value (fst (parContractsString ?pres))) =
                  Inl (Exception ''invalid start byte'')
                \<or> (\<exists>s. decode_7bit (c_value (fst (parContractsString ?pres))) = Inr s
                        \<and> decode_7bit (c_value (fst (parScore ?pres))) =
                            Inl (Exception ''invalid start byte''))"
    by (rule disjI1)
  from decode_error_reported [OF encode_main_hands c get_vulnerability_samples(1) p h]
  have "status (fst (solve ?lib decode_7bit main_hands 1)) = ''ok''
        \<and> optimal_contract (par_result (fst (solve ?lib decode_7bit main_hands 1))) =
            ''Decode Error: invalid start byte''
        \<and> score (par_result (fst (solve ?lib decode_7bit main_hands 1))) = ''0''"
    by simp
  with encode_main_hands c get_vulnerability_samples(1) p d show ?thesis
    by blast
qed

text \<open>
  C10. When \<open>CalcDDtable\<close> returns 1 and \<open>Par\<close> a code other than 1, the
  envelope has status \<open>ok\<close>, the message \<open>DDS Par Error: \<close> followed by the code,
  the vulnerability label of the round (never \<open>Unknown\<close>), contract \<open>-\<close> and
  score \<open>0\<close>.
\<close>

theorem par_failure_keeps_status_ok:
  assumes "encode_hands hands_dict (new_deal, 0) = (deal, 52)"
    and "CalcDDtable lib deal = Inr (1, table)"
    and "get_vulnerability round_num = Inr vul_val"
    and "Par lib table vul_val = Inr (res_par, table', pres)"
    and "res_par \<noteq> 1"
  shows "status (fst (solve lib decode hands_dict round_num)) = ''ok''
         \<and> message (fst (solve lib decode hands_dict round_num)) =
             ''DDS Par Error: '' @ str_int res_par
         \<and> message (fst (solve lib decode hands_dict round_num)) \<noteq> []
         \<and> vulnerability (par_result (fst (solve lib decode hands_dict round_num))) =
             spec_vulnerability_table ! nat ((round_num - 1) mod 16)
         \<and> vulnerability (par_result (fst (solve lib decode hands_dict round_num))) \<noteq> ''Unknown''
         \<and> optimal_contract (par_result (fst (solve lib decode hands_dict round_num))) = ''-''
         \<and> score (par_result (fst (solve lib decode hands_dict round_num))) = ''0''"
proof -
  have "nat ((round_num - 1) mod 16) < 16" by simp
  note known = spec_label_not_unknown [OF this]
  from par_stage_fails [OF assms(3,4,5)] known show ?thesis
    by (simp add: solve_of_try solve_try_calc_ok [OF assms(1,2)])
qed

theorem par_failure_keeps_status_ok_witness:
  "encode_hands main_hands (new_deal, 0) = (main_deal, 52)
   \<and> CalcDDtable (fixed_engine 1 (- 5) (par_buffers [] [])) main_deal = Inr (1, zero_table)
   \<and> get_vulnerability 4 = Inr 3
   \<and> Par (fixed_engine 1 (- 5) (par_buffers [] [])) zero_table 3 =
       Inr (- 5, zero_table, par_buffers [] [])
   \<and> (- 5 :: int) \<noteq> 1
   \<and> status (fst (solve (fixed_engine 1 (- 5) (par_buffers [] [])) decode_7bit main_hands 4)) = ''ok''
   \<and> message (fst (solve (fixed_engine 1 (- 5) (par_buffers [] [])) decode_7bit main_hands 4)) =
       ''DDS Par Error: -5''
   \<and> vulnerability (par_result
        (fst (solve (fixed_engine 1 (- 5) (par_buffers [] [])) decode_7bit main_hands 4))) = ''Both''
   \<and> optimal_contract (par_result
        (fst (solve (fixed_engine 1 (- 5) (par_buffers [] [])) decode_7bit main_hands 4))) = ''-''
   \<and> score (par_result
        (fst (solve (fixed_engine 1 (- 5) (par_buffers [] [])) decode_7bit main_hands 4))) = ''0''"
proof -
  let ?lib = "fixed_engine 1 (- 5) (par_buffers [] [])"
  have c: "CalcDDtable ?lib main_deal = Inr (1, zero_table)"
    and p: "Par ?lib zero_table 3 = Inr (- 5, zero_table, par_buffers [] [])"
    by (simp_all add: fixed_engine_calls)
  have ne: "(- 5 :: int) \<noteq> 1" by simp
  have label: "spec_vulnerability_table ! 3 = ''Both''"
    by (simp add: spec_vulnerability_table_def)
  from par_failure_keeps_status_ok
    [OF encode_main_hands c get_vulnerability_samples(2) p ne, of decode_7bit]
  show ?thesis
    using encode_main_hands c p get_vulnerability_samples(2)
    by (simp add: label str_int_samples)
qed

subsection \<open>The claims about the encoding loop\<close>

lemma encoded_cell_bits:
  assumes "p < 4" and "s < 4"
  shows "bit (cell (fst (encode_hands hands_dict (new_deal, 0))) p s) k \<longleftrightarrow>
           (\<exists>player c b. (player, c) \<in> set (seat_tokens hands_dict) \<and>
              HandMap player = Some p \<and> card_target c = Some (s, b) \<and> bit b k)"
proof -
  from cell_fold_place [OF wf_new_deal accepted_range_all, of hands_dict p s k]
  have "bit (cell (fold place (accepted_cards hands_dict) new_deal) p s) k \<longleftrightarrow>
          (\<exists>b. (p, s, b) \<in> set (accepted_cards hands_dict) \<and> bit b k)"
    by (simp add: cell_new_deal [OF assms])
  also have "\<dots> \<longleftrightarrow>
          (\<exists>player c b. (player, c) \<in> set (seat_tokens hands_dict) \<and>
              HandMap player = Some p \<and> card_target c = Some (s, b) \<and> bit b k)"
    unfolding in_accepted_cards by blast
  finally show ?thesis
    by (simp add: encode_hands_fold)
qed

text \<open>
  C9. Two hands mappings that hold the same set of (seat, token) pairs, in whatever order
  and with whatever repetitions, are encoded into the same mask table; and running the
  loop again, for either of them, on the table already built leaves that table as it is.
  The reason is the third part: a bit of a cell is set exactly when some accepted token of
  that seat and suit has that rank bit, whatever the order of the tokens.
\<close>

theorem encoding_order_independent:
  assumes "set (seat_tokens hands1) = set (seat_tokens hands2)"
  shows "fst (encode_hands hands1 (new_deal, 0)) = fst (encode_hands hands2 (new_deal, 0))
         \<and> fst (encode_hands hands2 (fst (encode_hands hands1 (new_deal, 0)), n)) =
             fst (encode_hands hands1 (new_deal, 0))
         \<and> (p < 4 \<longrightarrow> s < 4 \<longrightarrow>
              (bit (cell (fst (encode_hands hands1 (new_deal, 0))) p s) k \<longleftrightarrow>
                 (\<exists>player c b. (player, c) \<in> set (seat_tokens hands1) \<and>
                    HandMap player = Some p \<and> card_target c = Some (s, b) \<and> bit b k)))"
proof (intro conjI impI)
  note same = same_tokens_same_cards [OF assms]
  from fold_place_same_set [OF same wf_new_deal]
  show "fst (encode_hands hands1 (new_deal, 0)) = fst (encode_hands hands2 (new_deal, 0))"
    by (simp add: encode_hands_fold)
  from fold_place_again [OF same wf_new_deal]
  show "fst (encode_hands hands2 (fst (encode_hands hands1 (new_deal, 0)), n)) =
          fst (encode_hands hands1 (new_deal, 0))"
    by (simp add: encode_hands_fold)
next
  assume "p < 4" and "s < 4"
  then show "bit (cell (fst (encode_hands hands1 (new_deal, 0))) p s) k \<longleftrightarrow>
      (\<exists>player c b. (player, c) \<in> set (seat_tokens hands1) \<and>
         HandMap player = Some p \<and> card_target c = Some (s, b) \<and> bit b k)"
    by (rule encoded_cell_bits)
qed

theorem encoding_order_independent_witness:
  "set (seat_tokens hands_a) = set (seat_tokens hands_b)
   \<and> fst (encode_hands hands_a (new_deal, 0)) = fst (encode_hands hands_b (new_deal, 0))
   \<and> fst (encode_hands hands_b (fst (encode_hands hands_a (new_deal, 0)), 3)) =
       fst (encode_hands hands_a (new_deal, 0))
   \<and> fst (encode_hands hands_a (new_deal, 0)) =
       \<lparr>cards = [[0x6000, 0, 0, 0], [0, 4, 0, 0], [0, 0, 0, 0], [0, 0, 0, 0]]\<rparr>
   \<and> (0 :: nat) < 4
   \<and> bit (cell (fst (encode_hands hands_a (new_deal, 0))) 0 0) 14
   \<and> (\<exists>player c b. (player, c) \<in> set (seat_tokens hands_a) \<and>
         HandMap player = Some 0 \<and> card_target c = Some (0, b) \<and> bit b 14)"
proof -
  have h: "set (seat_tokens hands_a) = set (seat_tokens hands_b)"
    by (auto simp: seat_tokens_def hands_a_def hands_b_def)
  have v: "fst (encode_hands hands_a (new_deal, 0)) =
             \<lparr>cards = [[0x6000, 0, 0, 0], [0, 4, 0, 0], [0, 0, 0, 0], [0, 0, 0, 0]]\<rparr>"
    by code_simp
  have z: "(0 :: nat) < 4" by simp
  have b: "bit (cell (fst (encode_hands hands_a (new_deal, 0))) 0 0) 14"
    by code_simp
  note t = encoding_order_independent [OF h, of 3 0 0 14]
  from t z b have
    "\<exists>player c b. (player, c) \<in> set (seat_tokens hands_a) \<and>
         HandMap player = Some 0 \<and> card_target c = Some (0, b) \<and> bit b 14"
    by blast
  with t h v z b show ?thesis
    by blast
qed

text \<open>
  C3, at a seat that holds one token twice: 52 tokens are accepted, the table has 51
  bits set, and \<open>solve\<close> goes on to call both entry points of the engine.
\<close>

theorem popcount_not_checked:
  "deal_popcount (fst (encode_hands hands_dup (new_deal, 0))) = 51
   \<and> snd (encode_hands hands_dup (new_deal, 0)) = 52
   \<and> status (fst (solve (fixed_engine 1 1 (par_buffers ''NS:NS 7S'' ''NS 2210'')) decode_7bit
         hands_dup 1)) = ''ok''
   \<and> snd (solve (fixed_engine 1 1 (par_buffers ''NS:NS 7S'' ''NS 2210'')) decode_7bit
         hands_dup 1) = [Call_CalcDDtable dup_deal, Call_Par zero_table 0]"
proof -
  let ?pres = "par_buffers ''NS:NS 7S'' ''NS 2210''"
  let ?lib = "fixed_engine 1 1 ?pres"
  have c: "CalcDDtable ?lib dup_deal = Inr (1, zero_table)"
    and p: "Par ?lib zero_table 0 = Inr (1, zero_table, ?pres)"
    by (simp_all add: fixed_engine_calls)
  note body = solve_try_calc_ok [OF encode_hands_dup c]
  note par = par_stage_succeeds [OF get_vulnerability_samples(1) p]
  from par have "solve ?lib decode_7bit hands_dup 1 =
      (default_result\<lparr>status := ''ok'', dd_table := structured_dd zero_table,
         par_result := \<lparr>vulnerability = spec_vulnerability_table ! nat ((1 - 1) mod 16),
            optimal_contract = fst (decode_par decode_7bit ?pres),
            score = snd (decode_par decode_7bit ?pres)\<rparr>\<rparr>,
       [Call_CalcDDtable dup_deal, Call_Par zero_table 0])"
    by (simp add: solve_of_try body)
  then show ?thesis
    by (simp add: encode_hands_dup deal_popcount_dup)
qed

text \<open>
  C3, amended. When no accepted card is repeated for the same seat, the number of bits
  set in the table is the number of accepted tokens; so for such hands a popcount other
  than 52 makes \<open>solve\<close> return status \<open>error\<close> without any engine call.
\<close>

theorem distinct_cards_popcount_checked:
  assumes "distinct (accepted_cards hands_dict)"
    and "deal_popcount (fst (encode_hands hands_dict (new_deal, 0))) \<noteq> 52"
  shows "int (deal_popcount (fst (encode_hands hands_dict (new_deal, 0)))) =
           snd (encode_hands hands_dict (new_deal, 0))
         \<and> status (fst (solve lib decode hands_dict round_num)) = ''error''
         \<and> snd (solve lib decode hands_dict round_num) = []"
proof -
  note count = popcount_counts_distinct_cards [OF assms(1)]
  with assms(2) have "snd (encode_hands hands_dict (new_deal, 0)) \<noteq> 52"
    by linarith
  from solve_invalid_count [OF this] count show ?thesis
    by (simp add: default_result_def)
qed

theorem distinct_cards_popcount_checked_witness:
  "distinct (accepted_cards hands_51)
   \<and> deal_popcount (fst (encode_hands hands_51 (new_deal, 0))) = 51
   \<and> snd (encode_hands hands_51 (new_deal, 0)) = 51
   \<and> status (fst (solve raising_engine decode_7bit hands_51 1)) = ''error''
   \<and> snd (solve raising_engine decode_7bit hands_51 1) = []"
proof -
  have d: "distinct (accepted_cards hands_51)"
    by code_simp
  have p: "deal_popcount (fst (encode_hands hands_51 (new_deal, 0))) = 51"
    by code_simp
  then have ne: "deal_popcount (fst (encode_hands hands_51 (new_deal, 0))) \<noteq> 52"
    by simp
  from distinct_cards_popcount_checked [OF d ne, of raising_engine decode_7bit 1] p d
  show ?thesis
    by simp
qed

end
